theory Spec2Isabelle
  imports Main "HOL-Library.Sublist"
begin

section \<open>Values crossing the isolation boundary\<close>

text \<open>
  The data values of the model: primitives, error objects, arrays, and plain objects
  whose own properties are data values. \<open>JNum s\<close> is the finite number that prints as
  \<open>s\<close> (\<open>42\<close>, \<open>0.5\<close>, \<open>1e+21\<close>; both zeros print as \<open>0\<close>). \<open>JInfinity neg\<close> is \<open>-Infinity\<close>
  when \<open>neg\<close> holds. \<open>JErr name msg stack\<close> is an error object with its \<open>name\<close>,
  \<open>message\<close> and \<open>stack\<close> properties and no other own property. \<open>JArr\<close> is an array
  with no property besides its elements. \<open>JObj\<close> lists the own enumerable properties
  of a plain object in enumeration order (keys distinct). Strings are sequences of
  code units below 256. Functions, symbols, cyclic structures and objects of other
  classes are not values of the model.
\<close>

datatype jsval =
    JUndefined
  | JNull
  | JBool bool
  | JNum string
  | JNaN
  | JInfinity bool
  | JBigInt int
  | JStr string
  | JErr string string jsval
  | JArr "jsval list"
  | JObj "(string \<times> jsval) list"

datatype error = TypeError

text \<open>Truthiness and \<open>a || b\<close>.\<close>

fun truthy :: "jsval \<Rightarrow> bool" where
  "truthy JUndefined = False"
| "truthy JNull = False"
| "truthy (JBool b) = b"
| "truthy (JNum s) = (s \<noteq> ''0'')"
| "truthy JNaN = False"
| "truthy (JBigInt n) = (n \<noteq> 0)"
| "truthy (JStr s) = (s \<noteq> [])"
| "truthy _ = True"

definition or_js :: "jsval \<Rightarrow> jsval \<Rightarrow> jsval" where
  "or_js a b = (if truthy a then a else b)"

text \<open>
  The properties that the source reads. \<open>get v k\<close> is \<open>v.k\<close> for a value \<open>v\<close> other than
  null and undefined, on which the source reads no property: an own property of a
  plain object, the stack of an error object; no prototype has a property of one of
  these names.
\<close>

datatype pname = P_fromSandbox | P_type | P_args | P_runCode | P_code | P_stack

fun key :: "pname \<Rightarrow> string" where
  "key P_fromSandbox = ''__fromSandbox''"
| "key P_type = ''type''"
| "key P_args = ''args''"
| "key P_runCode = ''__runCode''"
| "key P_code = ''code''"
| "key P_stack = ''stack''"

fun get :: "jsval \<Rightarrow> pname \<Rightarrow> jsval" where
  "get (JObj ps) k = (case map_of ps (key k) of Some v \<Rightarrow> v | None \<Rightarrow> JUndefined)"
| "get (JErr name msg stack) k = (if k = P_stack then stack else JUndefined)"
| "get _ k = JUndefined"

subsection \<open>String coercion\<close>

fun nat_digits :: "nat \<Rightarrow> string" where
  "nat_digits n =
     (if n < 10 then [''0123456789'' ! n]
      else nat_digits (n div 10) @ [''0123456789'' ! (n mod 10)])"

declare nat_digits.simps [simp del]

definition int_digits :: "int \<Rightarrow> string" where
  "int_digits i = (if i < 0 then CHR ''-'' # nat_digits (nat (- i)) else nat_digits (nat i))"

text \<open>\<open>join sep xs\<close> is \<open>xs.join(sep)\<close> on an array of strings.\<close>

fun join :: "string \<Rightarrow> string list \<Rightarrow> string" where
  "join sep [] = []"
| "join sep [s] = s"
| "join sep (s # t # ts) = s @ sep @ join sep (t # ts)"

text \<open>
  \<open>js_String v\<close> is \<open>String(v)\<close>, which for the values of the model is also the
  coercion made by a template literal and by \<open>new Function\<close>. A plain object is
  converted by the first callable of its \<open>toString\<close> and \<open>valueOf\<close>: the inherited
  \<open>toString\<close> gives \<open>[object Object]\<close>; an own property \<open>toString\<close>, which holds a data
  value and so is not callable, hides it, and then the conversion throws a TypeError,
  since the inherited \<open>valueOf\<close> returns the object and an own one is not callable.
  An array prints its elements separated by commas, null and undefined elements as
  nothing, and throws when an element does. An error prints as its name and message.
\<close>

fun js_String :: "jsval \<Rightarrow> error + string"
and js_String_elems :: "jsval list \<Rightarrow> error + string list" where
  "js_String JUndefined = Inr ''undefined''"
| "js_String JNull = Inr ''null''"
| "js_String (JBool b) = Inr (if b then ''true'' else ''false'')"
| "js_String (JNum s) = Inr s"
| "js_String JNaN = Inr ''NaN''"
| "js_String (JInfinity neg) = Inr (if neg then ''-Infinity'' else ''Infinity'')"
| "js_String (JBigInt n) = Inr (int_digits n)"
| "js_String (JStr s) = Inr s"
| "js_String (JErr name msg stack) =
     Inr (if name = [] then msg else if msg = [] then name else name @ '': '' @ msg)"
| "js_String (JArr xs) =
     (case js_String_elems xs of Inl e \<Rightarrow> Inl e | Inr ss \<Rightarrow> Inr (join '','' ss))"
| "js_String (JObj ps) =
     (if map_of ps ''toString'' = None then Inr ''[object Object]'' else Inl TypeError)"
| "js_String_elems [] = Inr []"
| "js_String_elems (x # xs) =
     (case (case x of JUndefined \<Rightarrow> Inr [] | JNull \<Rightarrow> Inr [] | _ \<Rightarrow> js_String x) of
        Inl e \<Rightarrow> Inl e
      | Inr s \<Rightarrow> (case js_String_elems xs of Inl e \<Rightarrow> Inl e | Inr ss \<Rightarrow> Inr (s # ss)))"

subsection \<open>JSON serialization\<close>

abbreviation dq :: char where "dq \<equiv> CHR 0x22"
abbreviation bs :: char where "bs \<equiv> CHR 0x5C"

definition json_char :: "char \<Rightarrow> string" where
  "json_char c =
     (if c = dq then [bs, dq]
      else if c = bs then [bs, bs]
      else if c = CHR 0x08 then [bs, CHR ''b'']
      else if c = CHR 0x09 then [bs, CHR ''t'']
      else if c = CHR 0x0A then [bs, CHR ''n'']
      else if c = CHR 0x0C then [bs, CHR ''f'']
      else if c = CHR 0x0D then [bs, CHR ''r'']
      else if (of_char c :: nat) < 32
        then [bs, CHR ''u'', CHR ''0'', CHR ''0'',
              ''0123456789abcdef'' ! (of_char c div 16),
              ''0123456789abcdef'' ! (of_char c mod 16)]
      else [c])"

definition quote :: "string \<Rightarrow> string" where
  "quote s = dq # concat (map json_char s) @ [dq]"

text \<open>
  \<open>JSON_stringify v\<close> is \<open>JSON.stringify(v)\<close>: \<open>Inl TypeError\<close> when it throws (a BigInt
  anywhere in the value), \<open>Inr None\<close> when it returns undefined, \<open>Inr (Some s)\<close>
  otherwise. Undefined prints as \<open>null\<close> inside an array and is left out of an
  object; NaN and the infinities print as \<open>null\<close>; an error object has no enumerable
  property; an own property \<open>toJSON\<close> holds a data value, is not callable and is
  serialized like any other property.
\<close>

fun JSON_stringify :: "jsval \<Rightarrow> error + string option"
and JSON_elems :: "jsval list \<Rightarrow> error + string list"
and JSON_props :: "(string \<times> jsval) list \<Rightarrow> error + string list" where
  "JSON_stringify JUndefined = Inr None"
| "JSON_stringify JNull = Inr (Some ''null'')"
| "JSON_stringify (JBool b) = Inr (Some (if b then ''true'' else ''false''))"
| "JSON_stringify (JNum s) = Inr (Some s)"
| "JSON_stringify JNaN = Inr (Some ''null'')"
| "JSON_stringify (JInfinity neg) = Inr (Some ''null'')"
| "JSON_stringify (JBigInt n) = Inl TypeError"
| "JSON_stringify (JStr s) = Inr (Some (quote s))"
| "JSON_stringify (JErr name msg stack) = Inr (Some ''{}'')"
| "JSON_stringify (JArr xs) =
     (case JSON_elems xs of
        Inl e \<Rightarrow> Inl e
      | Inr ss \<Rightarrow> Inr (Some (''['' @ join '','' ss @ '']'')))"
| "JSON_stringify (JObj ps) =
     (case JSON_props ps of
        Inl e \<Rightarrow> Inl e
      | Inr ss \<Rightarrow> Inr (Some (''{'' @ join '','' ss @ ''}'')))"
| "JSON_elems [] = Inr []"
| "JSON_elems (x # xs) =
     (case JSON_stringify x of
        Inl e \<Rightarrow> Inl e
      | Inr r \<Rightarrow>
          (case JSON_elems xs of
             Inl e \<Rightarrow> Inl e
           | Inr ss \<Rightarrow> Inr ((case r of None \<Rightarrow> ''null'' | Some s \<Rightarrow> s) # ss)))"
| "JSON_props [] = Inr []"
| "JSON_props ((k, v) # ps) =
     (case JSON_stringify v of
        Inl e \<Rightarrow> Inl e
      | Inr r \<Rightarrow>
          (case JSON_props ps of
             Inl e \<Rightarrow> Inl e
           | Inr ss \<Rightarrow>
               Inr ((case r of None \<Rightarrow> [] | Some s \<Rightarrow> [quote k @ '':'' @ s]) @ ss)))"

text \<open>
  The values on which \<open>String\<close> throws: a plain object with an own property
  \<open>toString\<close>, and an array that holds one as an element, directly or inside nested
  arrays.
\<close>

fun uncoercible :: "jsval \<Rightarrow> bool"
and uncoercible_elems :: "jsval list \<Rightarrow> bool" where
  "uncoercible (JObj ps) = (map_of ps ''toString'' \<noteq> None)"
| "uncoercible (JArr xs) = uncoercible_elems xs"
| "uncoercible _ = False"
| "uncoercible_elems [] = False"
| "uncoercible_elems (x # xs) = (uncoercible x \<or> uncoercible_elems xs)"

text \<open>The values on which serialization throws: those that hold a BigInt.\<close>

fun unserializable :: "jsval \<Rightarrow> bool"
and unserializable_elems :: "jsval list \<Rightarrow> bool"
and unserializable_props :: "(string \<times> jsval) list \<Rightarrow> bool" where
  "unserializable (JBigInt n) = True"
| "unserializable (JArr xs) = unserializable_elems xs"
| "unserializable (JObj ps) = unserializable_props ps"
| "unserializable _ = False"
| "unserializable_elems [] = False"
| "unserializable_elems (x # xs) = (unserializable x \<or> unserializable_elems xs)"
| "unserializable_props [] = False"
| "unserializable_props ((k, v) # ps) = (unserializable v \<or> unserializable_props ps)"

section \<open>The host page: event renderer and dispatcher\<close>

record line =
  className :: string
  textContent :: string

text \<open>
  One \<open>ctx\<close> per iframe element ever created. \<open>attached\<close>: the element has a parent
  node (and therefore a content window). \<open>listening\<close>: the sandbox script of its
  srcdoc document has run and installed its listeners. \<open>load_once\<close>: the one-shot
  load listener registered by \<open>run\<close> has not fired yet. \<open>early\<close>: messages posted to
  its window before the script was listening. \<open>inbox\<close>: messages that the window of
  the script will dispatch to it.
\<close>

record ctx =
  attached :: bool
  listening :: bool
  load_once :: bool
  early :: "jsval list"
  inbox :: "jsval list"

text \<open>
  The host page. \<open>display\<close> is the list of children of the console element;
  \<open>iframe\<close> is the module-level variable of that name (an index into \<open>ctxs\<close>);
  \<open>timers\<close> counts the pending \<open>setTimeout(send, 0)\<close> callbacks; \<open>queue\<close> holds the
  message events posted to the host window and not yet dispatched, each with its
  source (the context that posted it, or \<open>None\<close> for another window) and its data;
  \<open>uncaught\<close> collects the exceptions that escaped a host event handler.
\<close>

record host =
  editor :: string
  display :: "line list"
  iframe :: "nat option"
  ctxs :: "ctx list"
  timers :: nat
  queue :: "(nat option \<times> jsval) list"
  uncaught :: "error list"

definition init :: host where
  "init = \<lparr>editor = [], display = [], iframe = None, ctxs = [], timers = 0,
           queue = [], uncaught = []\<rparr>"

subsection \<open>format and printLine\<close>

text \<open>
  \<open>format\<close>: a string as it is; otherwise the JSON serialization; when that throws,
  the \<open>catch\<close> branch returns \<open>String(v)\<close>, and an exception of that call leaves
  \<open>format\<close>.
\<close>

definition format :: "jsval \<Rightarrow> error + string option" where
  "format v =
     (case v of
        JStr s \<Rightarrow> Inr (Some s)
      | _ \<Rightarrow>
          (case JSON_stringify v of
             Inr r \<Rightarrow> Inr r
           | Inl e \<Rightarrow> (case js_String v of Inl e' \<Rightarrow> Inl e' | Inr s \<Rightarrow> Inr (Some s))))"

text \<open>\<open>parts.map(format)\<close>: the first exception ends the loop.\<close>

fun format_all :: "jsval list \<Rightarrow> error + string option list" where
  "format_all [] = Inr []"
| "format_all (p # ps) =
     (case format p of
        Inl e \<Rightarrow> Inl e
      | Inr r \<Rightarrow> (case format_all ps of Inl e \<Rightarrow> Inl e | Inr rs \<Rightarrow> Inr (r # rs)))"

text \<open>
  \<open>parts.map(format).join(' ')\<close>: join prints an undefined element as the empty string.
\<close>

definition joined :: "jsval list \<Rightarrow> error + string" where
  "joined parts =
     (case format_all parts of
        Inl e \<Rightarrow> Inl e
      | Inr rs \<Rightarrow> Inr (join '' '' (map (\<lambda>r. case r of None \<Rightarrow> [] | Some t \<Rightarrow> t) rs)))"

text \<open>
  \<open>printLine\<close> creates a \<open>div\<close>, sets its class name to the template literal
  \<open>line ${type}\<close> and its text, and only then appends it to the console element: when
  one of the two coercions throws, nothing is appended. The scroll position is not
  part of the model.
\<close>

definition printLine :: "jsval \<Rightarrow> jsval list \<Rightarrow> host \<Rightarrow> error + host" where
  "printLine type parts h =
     (case js_String type of
        Inl e \<Rightarrow> Inl e
      | Inr t \<Rightarrow>
          (case joined parts of
             Inl e \<Rightarrow> Inl e
           | Inr txt \<Rightarrow>
               Inr (h\<lparr>display := display h @
                       [\<lparr>className = ''line '' @ t, textContent = txt\<rparr>]\<rparr>)))"

definition clearConsole :: "host \<Rightarrow> host" where
  "clearConsole h = h\<lparr>display := []\<rparr>"

subsection \<open>The message listener of the host window\<close>

text \<open>
  \<open>spread v\<close> is \<open>...v\<close> in an argument list: the elements of an array, the characters
  of a string, a TypeError for a value that is not iterable.
\<close>

fun spread :: "jsval \<Rightarrow> error + jsval list" where
  "spread (JArr xs) = Inr xs"
| "spread (JStr s) = Inr (map (\<lambda>c. JStr [c]) s)"
| "spread _ = Inl TypeError"

definition on_message :: "jsval \<Rightarrow> host \<Rightarrow> error + host" where
  "on_message data h =
     (if \<not> truthy data \<or> \<not> truthy (get data P_fromSandbox) then Inr h
      else case spread (or_js (get data P_args) (JArr [])) of
             Inl e \<Rightarrow> Inl e
           | Inr parts \<Rightarrow> printLine (or_js (get data P_type) (JStr ''log'')) parts h)"

subsection \<open>createSandbox and run\<close>

definition contentWindow :: "host \<Rightarrow> nat \<Rightarrow> bool" where
  "contentWindow h c = (c < length (ctxs h) \<and> attached (ctxs h ! c))"

definition parentNode :: "host \<Rightarrow> nat \<Rightarrow> bool" where
  "parentNode h c = (c < length (ctxs h) \<and> attached (ctxs h ! c))"

definition removeChild :: "nat \<Rightarrow> host \<Rightarrow> host" where
  "removeChild c h = h\<lparr>ctxs := (ctxs h)[c := (ctxs h ! c)\<lparr>attached := False\<rparr>]\<rparr>"

definition appendChild :: "nat \<Rightarrow> host \<Rightarrow> host" where
  "appendChild c h = h\<lparr>ctxs := (ctxs h)[c := (ctxs h ! c)\<lparr>attached := True\<rparr>]\<rparr>"

definition createSandbox :: "host \<Rightarrow> host" where
  "createSandbox h =
     (let h1 = (case iframe h of
                  None \<Rightarrow> h
                | Some c \<Rightarrow> if parentNode h c then removeChild c h else h);
          n = length (ctxs h1);
          h2 = h1\<lparr>ctxs := ctxs h1 @
                     [\<lparr>attached = False, listening = False, load_once = False, early = [],
                        inbox = []\<rparr>],
                  iframe := Some n\<rparr>
      in appendChild n h2)"

text \<open>
  The structured clone that \<open>postMessage\<close> makes of a message. Every value of the
  model can be cloned. The clone of an error object has the name \<open>Error\<close> unless its
  name is that of a standard error class, and keeps a stack only when it is a string.
\<close>

definition standard_names :: "string list" where
  "standard_names =
     [''Error'', ''EvalError'', ''RangeError'', ''ReferenceError'', ''SyntaxError'',
      ''TypeError'', ''URIError'']"

fun clone :: "jsval \<Rightarrow> jsval"
and clone_elems :: "jsval list \<Rightarrow> jsval list"
and clone_props :: "(string \<times> jsval) list \<Rightarrow> (string \<times> jsval) list" where
  "clone (JErr name msg stack) =
     JErr (if name \<in> set standard_names then name else ''Error'') msg
          (case stack of JStr s \<Rightarrow> JStr s | _ \<Rightarrow> JUndefined)"
| "clone (JArr xs) = JArr (clone_elems xs)"
| "clone (JObj ps) = JObj (clone_props ps)"
| "clone v = v"
| "clone_elems [] = []"
| "clone_elems (x # xs) = clone x # clone_elems xs"
| "clone_props [] = []"
| "clone_props ((k, v) # ps) = (k, clone v) # clone_props ps"

definition RunRequest :: "string \<Rightarrow> jsval" where
  "RunRequest code = JObj [(''__runCode'', JBool True), (''code'', JStr code)]"

text \<open>
  \<open>postMessage c m h\<close>: the host posts \<open>m\<close> to the content window of iframe \<open>c\<close>. A
  message posted before the sandbox script is listening is kept apart in \<open>early\<close>.
\<close>

definition postMessage :: "nat \<Rightarrow> jsval \<Rightarrow> host \<Rightarrow> host" where
  "postMessage c m h =
     (if listening (ctxs h ! c)
      then h\<lparr>ctxs := (ctxs h)[c := (ctxs h ! c)\<lparr>inbox := inbox (ctxs h ! c) @ [clone m]\<rparr>]\<rparr>
      else h\<lparr>ctxs := (ctxs h)[c := (ctxs h ! c)\<lparr>early := early (ctxs h ! c) @ [clone m]\<rparr>]\<rparr>)"

text \<open>
  The closure \<open>send\<close> of \<open>run\<close>: it reads the variable \<open>iframe\<close> and the editor's text
  at the time it is called.
\<close>

definition run_send :: "host \<Rightarrow> host" where
  "run_send h =
     (case iframe h of
        None \<Rightarrow> h
      | Some c \<Rightarrow> if contentWindow h c then postMessage c (RunRequest (editor h)) h else h)"

definition addLoadListener :: "nat \<Rightarrow> host \<Rightarrow> host" where
  "addLoadListener c h = h\<lparr>ctxs := (ctxs h)[c := (ctxs h ! c)\<lparr>load_once := True\<rparr>]\<rparr>"

text \<open>
  \<open>run\<close>: clear, create, arm the timer when the new iframe has a content window, add
  the one-shot load listener. After \<open>createSandbox\<close> the variable \<open>iframe\<close> is never
  null, so the \<open>None\<close> branches are never taken.
\<close>

definition run :: "host \<Rightarrow> host" where
  "run h =
     (let h1 = clearConsole h;
          h2 = createSandbox h1;
          h3 = (case iframe h2 of
                  None \<Rightarrow> h2
                | Some c \<Rightarrow> if contentWindow h2 c then h2\<lparr>timers := timers h2 + 1\<rparr> else h2)
      in case iframe h3 of None \<Rightarrow> h3 | Some c \<Rightarrow> addLoadListener c h3)"

section \<open>The sandbox script\<close>

datatype channel = CLog | CInfo | CWarn | CError

fun channel_type :: "channel \<Rightarrow> string" where
  "channel_type CLog = ''log''"
| "channel_type CInfo = ''info''"
| "channel_type CWarn = ''warn''"
| "channel_type CError = ''error''"

text \<open>
  What a compiled script does when called, as far as the sandbox script can observe:
  it returns, it throws, or it calls one of the four wrapped console methods with data
  values and goes on.
\<close>

datatype prog =
    Return
  | Throw jsval
  | Call channel "jsval list" prog

text \<open>
  The scripting engine and the browser, which the repository does not contain:
  \<open>compile\<close> is \<open>new Function(code)\<close> (\<open>Inl\<close> the SyntaxError it throws); \<open>native\<close> the
  original console methods (\<open>Inl\<close> the exception one throws); \<open>type_error\<close> the
  TypeError object thrown when a value cannot be converted to a string;
  \<open>uncaught_text e\<close> the \<open>message\<close> of the error event that the window fires when the
  exception \<open>e\<close> leaves one of its listeners.
\<close>

record engine =
  compile :: "string \<Rightarrow> jsval + prog"
  native :: "channel \<Rightarrow> jsval list \<Rightarrow> jsval + unit"
  type_error :: jsval
  uncaught_text :: "jsval \<Rightarrow> string"

definition Output :: "string \<Rightarrow> jsval \<Rightarrow> jsval" where
  "Output type args =
     JObj [(''__fromSandbox'', JBool True), (''type'', JStr type), (''args'', args)]"

text \<open>
  The functions of the sandbox script work on the list of messages posted to the parent
  so far. \<open>send\<close> and \<open>wrap\<close> return the extended list: on the values of the model
  \<open>postMessage\<close> does not throw, and \<open>wrap\<close> discards an exception of the native method.
  The listeners return the exception that left them, if any, with the list.
\<close>

definition send :: "string \<Rightarrow> jsval \<Rightarrow> jsval list \<Rightarrow> jsval list" where
  "send type args out = out @ [clone (Output type args)]"

definition wrap ::
  "(jsval list \<Rightarrow> jsval + unit) \<Rightarrow> string \<Rightarrow> jsval list \<Rightarrow> jsval list \<Rightarrow> jsval list" where
  "wrap fn type a out =
     (case fn a of Inl e \<Rightarrow> send type (JArr a) out | Inr u \<Rightarrow> send type (JArr a) out)"

fun invoke :: "engine \<Rightarrow> prog \<Rightarrow> jsval list \<Rightarrow> jsval option \<times> jsval list" where
  "invoke eng Return out = (None, out)"
| "invoke eng (Throw e) out = (Some e, out)"
| "invoke eng (Call ch a k) out =
     invoke eng k (wrap (native eng ch) (channel_type ch) a out)"

text \<open>\<open>String(v)\<close> in the sandbox: the TypeError is an object of the engine.\<close>

definition sandbox_String :: "engine \<Rightarrow> jsval \<Rightarrow> jsval + string" where
  "sandbox_String eng v =
     (case js_String v of Inl e \<Rightarrow> Inl (type_error eng) | Inr s \<Rightarrow> Inr s)"

definition sandbox_on_error ::
  "engine \<Rightarrow> string \<Rightarrow> jsval \<Rightarrow> jsval list \<Rightarrow> jsval option \<times> jsval list" where
  "sandbox_on_error eng message err out =
     (case sandbox_String eng (or_js (JStr message) err) of
        Inl x \<Rightarrow> (Some x, out)
      | Inr s \<Rightarrow> (None, send ''error'' (JArr [JStr s]) out))"

definition sandbox_on_unhandledrejection ::
  "engine \<Rightarrow> jsval \<Rightarrow> jsval list \<Rightarrow> jsval option \<times> jsval list" where
  "sandbox_on_unhandledrejection eng reason out =
     (case sandbox_String eng reason of
        Inl x \<Rightarrow> (Some x, out)
      | Inr s \<Rightarrow> (None, send ''error'' (JArr [JStr s]) out))"

text \<open>\<open>err && err.stack || err\<close>.\<close>

definition stack_or_err :: "jsval \<Rightarrow> jsval" where
  "stack_or_err err = (if truthy err then or_js (get err P_stack) err else err)"

text \<open>The \<open>catch\<close> block of the message listener.\<close>

definition catch_block :: "engine \<Rightarrow> jsval \<Rightarrow> jsval list \<Rightarrow> jsval option \<times> jsval list" where
  "catch_block eng err out =
     (case sandbox_String eng (stack_or_err err) of
        Inl x \<Rightarrow> (Some x, out)
      | Inr s \<Rightarrow> (None, send ''error'' (JArr [JStr s]) out))"

text \<open>
  The message listener: \<open>new Function(data.code)\<close> first converts \<open>data.code\<close> to a
  string, inside the \<open>try\<close> block like the compilation and the call.
\<close>

definition sandbox_on_message ::
  "engine \<Rightarrow> jsval \<Rightarrow> jsval list \<Rightarrow> jsval option \<times> jsval list" where
  "sandbox_on_message eng data out =
     (if \<not> truthy data \<or> \<not> truthy (get data P_runCode) then (None, out)
      else case sandbox_String eng (get data P_code) of
             Inl x \<Rightarrow> catch_block eng x out
           | Inr code \<Rightarrow>
               (case compile eng code of
                  Inl err \<Rightarrow> catch_block eng err out
                | Inr f \<Rightarrow>
                    (case invoke eng f out of
                       (None, out') \<Rightarrow> (None, out')
                     | (Some err, out') \<Rightarrow> catch_block eng err out')))"

text \<open>
  An exception that leaves a listener of the sandbox window is reported to that
  window: it fires an error event, on which the script's error listener runs. An
  exception of the error listener itself is not reported again.
\<close>

definition reported :: "engine \<Rightarrow> jsval option \<times> jsval list \<Rightarrow> jsval list" where
  "reported eng res =
     (case res of
        (None, out) \<Rightarrow> out
      | (Some e, out) \<Rightarrow> snd (sandbox_on_error eng (uncaught_text eng e) e out))"

section \<open>The event loop\<close>

text \<open>
  Each event is one task of the browser's event loop; a handler runs to completion.
  \<open>Run\<close>: the user starts a run. \<open>Edit s\<close>: the editor's text becomes \<open>s\<close>.
  \<open>Timer\<close>: a pending timeout of \<open>run\<close> fires. \<open>Boot c kept\<close>: the sandbox script of
  iframe \<open>c\<close> runs and starts listening; \<open>kept\<close> tells whether the browser hands it the
  messages that were posted to the window before. \<open>Load c\<close>: iframe \<open>c\<close>, whose
  script is listening, fires a load event. \<open>Deliver c\<close>: the window of context \<open>c\<close>
  dispatches the next message of its inbox. \<open>AsyncCall c ch a\<close>: a continuation of
  the script in context \<open>c\<close> calls a console method. \<open>ErrorEvent c m e\<close>: the window
  of context \<open>c\<close> fires an error event for an exception \<open>e\<close> of such a continuation.
  \<open>Rejection c y\<close>: it fires an unhandledrejection event. \<open>Extern d\<close>: another window
  posts \<open>d\<close> to the host. \<open>HostMsg\<close>: the host window dispatches the next message of
  its queue. A context runs only while its iframe is attached and its script is
  listening: removing the iframe discards its browsing context. Messages it has
  already posted stay in the host's queue, which is first in, first out.
\<close>

datatype event =
    Run
  | Edit string
  | Timer
  | Boot nat bool
  | Load nat
  | Deliver nat
  | AsyncCall nat channel "jsval list"
  | ErrorEvent nat string jsval
  | Rejection nat jsval
  | Extern jsval
  | HostMsg

definition live :: "host \<Rightarrow> nat \<Rightarrow> bool" where
  "live h c = (c < length (ctxs h) \<and> attached (ctxs h ! c) \<and> listening (ctxs h ! c))"

definition emit :: "nat \<Rightarrow> jsval list \<Rightarrow> host \<Rightarrow> host" where
  "emit c ms h = h\<lparr>queue := queue h @ map (\<lambda>m. (Some c, m)) ms\<rparr>"

definition boot :: "nat \<Rightarrow> bool \<Rightarrow> host \<Rightarrow> host" where
  "boot c kept h =
     (if contentWindow h c \<and> \<not> listening (ctxs h ! c)
      then h\<lparr>ctxs := (ctxs h)[c :=
             (if kept
              then (ctxs h ! c)\<lparr>listening := True, early := [],
                     inbox := early (ctxs h ! c) @ inbox (ctxs h ! c)\<rparr>
              else (ctxs h ! c)\<lparr>listening := True\<rparr>)]\<rparr>
      else h)"

definition fire_load :: "nat \<Rightarrow> host \<Rightarrow> host" where
  "fire_load c h =
     (if live h c \<and> load_once (ctxs h ! c)
      then run_send (h\<lparr>ctxs := (ctxs h)[c := (ctxs h ! c)\<lparr>load_once := False\<rparr>]\<rparr>)
      else h)"

definition deliver :: "engine \<Rightarrow> nat \<Rightarrow> host \<Rightarrow> host" where
  "deliver eng c h =
     (if live h c
      then case inbox (ctxs h ! c) of
             [] \<Rightarrow> h
           | m # ms \<Rightarrow>
               emit c (reported eng (sandbox_on_message eng m []))
                 (h\<lparr>ctxs := (ctxs h)[c := (ctxs h ! c)\<lparr>inbox := ms\<rparr>]\<rparr>)
      else h)"

definition host_dispatch :: "host \<Rightarrow> host" where
  "host_dispatch h =
     (case queue h of
        [] \<Rightarrow> h
      | (src, d) # q \<Rightarrow>
          (case on_message d (h\<lparr>queue := q\<rparr>) of
             Inr h' \<Rightarrow> h'
           | Inl e \<Rightarrow> h\<lparr>queue := q, uncaught := uncaught h @ [e]\<rparr>))"

fun step :: "engine \<Rightarrow> event \<Rightarrow> host \<Rightarrow> host" where
  "step eng Run h = run h"
| "step eng (Edit s) h = h\<lparr>editor := s\<rparr>"
| "step eng Timer h = (if timers h = 0 then h else run_send (h\<lparr>timers := timers h - 1\<rparr>))"
| "step eng (Boot c kept) h = boot c kept h"
| "step eng (Load c) h = fire_load c h"
| "step eng (Deliver c) h = deliver eng c h"
| "step eng (AsyncCall c ch a) h =
     (if live h c then emit c (wrap (native eng ch) (channel_type ch) a []) h else h)"
| "step eng (ErrorEvent c m e) h =
     (if live h c then emit c (snd (sandbox_on_error eng m e [])) h else h)"
| "step eng (Rejection c y) h =
     (if live h c then emit c (reported eng (sandbox_on_unhandledrejection eng y [])) h
      else h)"
| "step eng (Extern d) h = h\<lparr>queue := queue h @ [(None, d)]\<rparr>"
| "step eng HostMsg h = host_dispatch h"

fun exec :: "engine \<Rightarrow> event list \<Rightarrow> host \<Rightarrow> host" where
  "exec eng [] h = h"
| "exec eng (e # es) h = exec eng es (step eng e h)"

section \<open>Notions used to state the properties\<close>

text \<open>
  \<open>rendered d\<close>: the lines the host listener appends for a message with data \<open>d\<close>
  (none when it returns early or throws). \<open>pending_lines h\<close>: the display as it will be
  once every message now in the host's queue has been dispatched.
\<close>

definition rendered :: "jsval \<Rightarrow> line list" where
  "rendered d = (case on_message d init of Inr h' \<Rightarrow> display h' | Inl e \<Rightarrow> [])"

definition pending_lines :: "host \<Rightarrow> line list" where
  "pending_lines h = display h @ concat (map (\<lambda>(src, d). rendered d) (queue h))"

text \<open>The messages in the host's queue that were not posted by the current context.\<close>

definition stale :: "host \<Rightarrow> (nat option \<times> jsval) list" where
  "stale h = filter (\<lambda>(src, d). src \<noteq> iframe h) (queue h)"

text \<open>The iframes attached to the document.\<close>

definition attached_ids :: "host \<Rightarrow> nat list" where
  "attached_ids h = filter (\<lambda>i. attached (ctxs h ! i)) [0..<length (ctxs h)]"

text \<open>
  The invariant of the host: the iframe held by the variable \<open>iframe\<close> is the only
  attached one, and every queued message of a context names an existing context.
\<close>

definition host_inv :: "host \<Rightarrow> bool" where
  "host_inv h =
     ((\<forall>i < length (ctxs h). attached (ctxs h ! i) = (iframe h = Some i))
      \<and> (\<forall>c. iframe h = Some c \<longrightarrow> c < length (ctxs h))
      \<and> (\<forall>c d. (Some c, d) \<in> set (queue h) \<longrightarrow> c < length (ctxs h)))"

text \<open>
  The state of a run of the empty script: the editor is empty, the current context has
  been sent nothing but requests to run the empty script, and no message of the current
  context is in the host's queue.
\<close>

definition silent :: "host \<Rightarrow> bool" where
  "silent h =
     (editor h = [] \<and> host_inv h
      \<and> (\<forall>c. iframe h = Some c \<longrightarrow>
            (\<forall>m \<in> set (early (ctxs h ! c)) \<union> set (inbox (ctxs h ! c)). m = RunRequest [])
            \<and> (\<forall>d. (Some c, d) \<notin> set (queue h))))"


text \<open>
  The events that need no script activity of their own: timers and load events of the
  dispatcher, the start of the sandbox script, and the dispatch of posted messages on
  either side.
\<close>

fun internal :: "event \<Rightarrow> bool" where
  "internal Timer = True"
| "internal (Boot c kept) = True"
| "internal (Load c) = True"
| "internal (Deliver c) = True"
| "internal HostMsg = True"
| "internal _ = False"

text \<open>The context in which an event of script activity happens.\<close>

fun script_ctx :: "event \<Rightarrow> nat option" where
  "script_ctx (AsyncCall c ch a) = Some c"
| "script_ctx (ErrorEvent c m e) = Some c"
| "script_ctx (Rejection c y) = Some c"
| "script_ctx _ = None"

text \<open>
  The events that can follow a run of the empty script in context \<open>cur\<close> as long as
  there is no edit, no further run and no message of another window: the internal
  ones, and the activity of the scripts of other contexts. The empty script itself
  starts no activity.
\<close>

definition follows_empty :: "nat \<Rightarrow> event \<Rightarrow> bool" where
  "follows_empty cur e =
     (internal e \<or> (case script_ctx e of None \<Rightarrow> False | Some c \<Rightarrow> c \<noteq> cur))"

fun is_Extern :: "event \<Rightarrow> bool" where
  "is_Extern (Extern d) = True"
| "is_Extern _ = False"

subsection \<open>A fragment of a scripting engine, for concrete runs\<close>

text \<open>
  The scripts below behave as the language prescribes; the native console methods
  succeed. Every other text is treated like the empty script, which returns at once.
  The last script rejects a promise after logging; the rejection is an event of its
  own.
\<close>

definition script_log_old :: string where
  "script_log_old = ''console.log(`old`)''"

definition script_throw_custom :: string where
  "script_throw_custom = ''const e = new Error(`x`); e.stack = `custom`; throw e''"

definition script_throw_nostack :: string where
  "script_throw_nostack = ''const e = new Error(`x`); e.stack = undefined; throw e''"

definition script_log_reject :: string where
  "script_log_reject = ''console.log(`old`); Promise.reject(`boom`)''"

definition script_log_uncoercible :: string where
  "script_log_uncoercible = ''console.log(`a`, {toString: 1, n: 1n})''"

definition demo_compile :: "string \<Rightarrow> jsval + prog" where
  "demo_compile code =
     (if code = script_log_old \<or> code = script_log_reject
        then Inr (Call CLog [JStr ''old''] Return)
      else if code = script_log_uncoercible
        then Inr (Call CLog [JStr ''a'', JObj [(''toString'', JNum ''1''), (''n'', JBigInt 1)]]
                    Return)
      else if code = script_throw_custom
        then Inr (Throw (JErr ''Error'' ''x'' (JStr ''custom'')))
      else if code = script_throw_nostack
        then Inr (Throw (JErr ''Error'' ''x'' JUndefined))
      else Inr Return)"

definition demo_engine :: engine where
  "demo_engine =
     \<lparr>compile = demo_compile, native = (\<lambda>ch a. Inr ()),
      type_error = JErr ''TypeError'' ''Cannot convert object to primitive value'' JUndefined,
      uncaught_text = (\<lambda>e. ''Uncaught exception'')\<rparr>"

section \<open>Rendering and the listener of the host\<close>

lemma error_is_TypeError: "(e :: error) = TypeError"
  by (cases e) simp

lemma JSON_fails_iff:
  "(JSON_stringify v = Inl TypeError) = unserializable v"
  "(JSON_elems xs = Inl TypeError) = unserializable_elems xs"
  "(JSON_props ps = Inl TypeError) = unserializable_props ps"
  by (induction v and xs and ps rule: JSON_stringify_JSON_elems_JSON_props.induct)
     (auto split: sum.splits simp: error_is_TypeError)

lemma js_String_fails_iff:
  "(js_String v = Inl TypeError) = uncoercible v"
  "(js_String_elems xs = Inl TypeError) = uncoercible_elems xs"
  by (induction v and xs rule: js_String_js_String_elems.induct)
     (auto split: sum.splits jsval.splits simp: error_is_TypeError)

lemma format_cases:
  "format (JStr s) = Inr (Some s)"
  "(\<forall>t. v \<noteq> JStr t) \<Longrightarrow> JSON_stringify v = Inr r \<Longrightarrow> format v = Inr r"
  "(\<forall>t. v \<noteq> JStr t) \<Longrightarrow> JSON_stringify v = Inl e \<Longrightarrow> js_String v = Inr s
     \<Longrightarrow> format v = Inr (Some s)"
  "(\<forall>t. v \<noteq> JStr t) \<Longrightarrow> JSON_stringify v = Inl e \<Longrightarrow> js_String v = Inl e'
     \<Longrightarrow> format v = Inl TypeError"
  by (cases v; auto simp: format_def error_is_TypeError)+

lemma format_throws_iff: "(format v = Inl TypeError) = (unserializable v \<and> uncoercible v)"
  using JSON_fails_iff(1) [of v] js_String_fails_iff(1) [of v]
  by (cases v) (auto simp: format_def error_is_TypeError split: sum.splits)

lemma format_all_append:
  "format_all xs = Inr rs \<Longrightarrow> format_all ys = Inr ss \<Longrightarrow> format_all (xs @ ys) = Inr (rs @ ss)"
  by (induction xs arbitrary: rs) (auto split: sum.splits)

lemma on_message_Output:
  "on_message (Output ty (JArr a)) h = printLine (JStr (if ty = [] then ''log'' else ty)) a h"
  by (simp add: on_message_def Output_def or_js_def)

lemma printLine_strings:
  "joined a = Inr txt \<Longrightarrow>
     printLine (JStr ty) a h =
       Inr (h\<lparr>display := display h @ [\<lparr>className = ''line '' @ ty, textContent = txt\<rparr>]\<rparr>)"
  by (simp add: printLine_def)

lemma on_message_cases:
  "on_message d h = Inl TypeError \<and> rendered d = []
   \<or> on_message d h = Inr (h\<lparr>display := display h @ rendered d\<rparr>)"
  by (auto simp: on_message_def rendered_def printLine_def init_def error_is_TypeError
           split: sum.splits)

lemma format_examples:
  "on_message (Output ''log'' (JArr [JStr ''Hello'', JStr ''World''])) h =
     Inr (h\<lparr>display := display h @
            [\<lparr>className = ''line log'', textContent = ''Hello World''\<rparr>]\<rparr>)"
  "on_message (Output ''log'' (JArr [JNum ''42''])) h =
     Inr (h\<lparr>display := display h @ [\<lparr>className = ''line log'', textContent = ''42''\<rparr>]\<rparr>)"
  "on_message (Output ''log'' (JArr [JObj [(''a'', JNum ''1'')]])) h =
     Inr (h\<lparr>display := display h @
            [\<lparr>className = ''line log'',
              textContent = ''{'' @ [dq] @ ''a'' @ [dq] @ '':1}''\<rparr>]\<rparr>)"
  "on_message (Output ''log'' (JArr [JStr ''a'', JBigInt 7, JNum ''42''])) h =
     Inr (h\<lparr>display := display h @ [\<lparr>className = ''line log'', textContent = ''a 7 42''\<rparr>]\<rparr>)"
  by (simp_all add: on_message_Output printLine_def joined_def format_def quote_def
        json_char_def int_digits_def nat_digits.simps)

text \<open>
  C6. \<open>format\<close> returns a string verbatim and serializes any other value with
  \<open>JSON.stringify\<close>; when that throws it falls back to \<open>String(v)\<close>, outside any
  \<open>try\<close>. The fallback can throw as well. For the object \<open>{toString: 1, n: 1n}\<close> the
  serialization throws on the BigInt, and the string coercion throws a TypeError,
  because \<open>toString\<close> is not callable and \<open>valueOf\<close> returns the object. So \<open>format\<close>
  throws, \<open>printLine\<close> appends no line, the sibling argument \<open>a\<close> of the same event is
  not rendered, and the exception leaves the listener of the host: after the script
  has logged the two values the display is empty.
\<close>

theorem format_fallback_throws:
  "JSON_stringify (JObj [(''toString'', JNum ''1''), (''n'', JBigInt 1)]) = Inl TypeError
   \<and> js_String (JObj [(''toString'', JNum ''1''), (''n'', JBigInt 1)]) = Inl TypeError
   \<and> format (JObj [(''toString'', JNum ''1''), (''n'', JBigInt 1)]) = Inl TypeError
   \<and> on_message
        (Output ''log'' (JArr [JStr ''a'', JObj [(''toString'', JNum ''1''), (''n'', JBigInt 1)]]))
        init = Inl TypeError
   \<and> display (exec demo_engine
        [Edit script_log_uncoercible, Run, Boot 0 False, Timer, Deliver 0, HostMsg] init) = []
   \<and> uncaught (exec demo_engine
        [Edit script_log_uncoercible, Run, Boot 0 False, Timer, Deliver 0, HostMsg] init) =
       [TypeError]"
  by (simp add: init_def run_def Let_def clearConsole_def createSandbox_def appendChild_def
      contentWindow_def addLoadListener_def boot_def fire_load_def run_send_def postMessage_def
      deliver_def live_def emit_def sandbox_on_message_def RunRequest_def demo_engine_def
      demo_compile_def script_log_old_def script_throw_custom_def script_throw_nostack_def
      script_log_reject_def script_log_uncoercible_def sandbox_String_def reported_def
      wrap_def send_def Output_def host_dispatch_def on_message_def or_js_def printLine_def
      joined_def format_def)

text \<open>
  The formatter throws on that object.
\<close>

theorem format_fallback_throws_witness:
  "format (JObj [(''toString'', JNum ''1''), (''n'', JBigInt 1)]) = Inl TypeError"
  by (rule format_fallback_throws [THEN conjunct2, THEN conjunct2, THEN conjunct1])

text \<open>
  C3 (as amended). A message whose data is falsy, or whose \<open>__fromSandbox\<close> property is
  missing or falsy, is dropped silently: the listener returns without an exception and
  leaves the host unchanged, the message produces no line, and dispatching it only
  removes it from the queue.
\<close>

theorem missing_discriminator_dropped:
  "\<not> truthy data \<or> \<not> truthy (get data P_fromSandbox) \<Longrightarrow>
     on_message data h = Inr h
     \<and> rendered data = []
     \<and> host_dispatch (h\<lparr>queue := (src, data) # q\<rparr>) = h\<lparr>queue := q\<rparr>"
  by (auto simp: on_message_def rendered_def host_dispatch_def init_def)

text \<open>
  A message with kind and arguments but without the discriminator is dropped.
\<close>

theorem missing_discriminator_dropped_witness:
  "\<not> truthy (get (JObj [(''type'', JStr ''log''), (''args'', JArr [JStr ''x''])]) P_fromSandbox)
   \<and> on_message (JObj [(''type'', JStr ''log''), (''args'', JArr [JStr ''x''])]) init = Inr init
   \<and> host_dispatch
        (init\<lparr>queue := [(None, JObj [(''type'', JStr ''log''), (''args'', JArr [JStr ''x''])])]\<rparr>)
       = init\<lparr>queue := []\<rparr>"
  using missing_discriminator_dropped
          [of "JObj [(''type'', JStr ''log''), (''args'', JArr [JStr ''x''])]" init None "[]"]
  by simp

text \<open>
  C3 as stated fails: a message that carries the discriminator and whose \<open>args\<close> is the
  number 5 is not dropped silently. Spreading the number throws a TypeError, which
  escapes the listener.
\<close>

theorem non_sequence_args_throws:
  "on_message
     (JObj [(''__fromSandbox'', JBool True), (''type'', JStr ''log''), (''args'', JNum ''5'')])
     init = Inl TypeError
   \<and> uncaught (host_dispatch (init\<lparr>queue :=
        [(None, JObj [(''__fromSandbox'', JBool True), (''type'', JStr ''log''),
                      (''args'', JNum ''5'')])]\<rparr>)) = [TypeError]"
  by (simp add: on_message_def or_js_def host_dispatch_def init_def)

text \<open>
  C10 (as amended). For a message that carries the discriminator: when \<open>type\<close> is
  missing or falsy, spreading \<open>args || []\<close> does not throw and every argument can be
  formatted, the listener appends one line of kind \<open>log\<close>; when \<open>args\<close> is missing and
  the kind can be converted to a string, it appends one line with empty text; an
  argument whose JSON serialization is undefined contributes the empty text to the
  joined text of its line, not the text \<open>undefined\<close>, when the other arguments can be
  formatted.
\<close>

theorem default_kind_and_args:
  "truthy data \<Longrightarrow> truthy (get data P_fromSandbox) \<Longrightarrow>
     (\<not> truthy (get data P_type)
        \<and> spread (or_js (get data P_args) (JArr [])) = Inr parts \<and> joined parts = Inr txt
        \<longrightarrow> on_message data h =
              Inr (h\<lparr>display := display h @
                     [\<lparr>className = ''line log'', textContent = txt\<rparr>]\<rparr>))
     \<and> (get data P_args = JUndefined
        \<and> js_String (or_js (get data P_type) (JStr ''log'')) = Inr kind
        \<longrightarrow> on_message data h =
              Inr (h\<lparr>display := display h @
                     [\<lparr>className = ''line '' @ kind, textContent = []\<rparr>]\<rparr>))
     \<and> (JSON_stringify v = Inr None \<and> format_all xs = Inr rs \<and> format_all ys = Inr ss
        \<longrightarrow> format v = Inr None
            \<and> joined (xs @ v # ys) =
                Inr (join '' '' (map (\<lambda>r. case r of None \<Rightarrow> [] | Some t \<Rightarrow> t) rs @ [] #
                       map (\<lambda>r. case r of None \<Rightarrow> [] | Some t \<Rightarrow> t) ss)))
     \<and> JSON_stringify JUndefined = Inr None"
proof -
  assume t: "truthy data" "truthy (get data P_fromSandbox)"
  have a: "\<not> truthy (get data P_type)
        \<and> spread (or_js (get data P_args) (JArr [])) = Inr parts \<and> joined parts = Inr txt
        \<longrightarrow> on_message data h =
              Inr (h\<lparr>display := display h @
                     [\<lparr>className = ''line log'', textContent = txt\<rparr>]\<rparr>)"
    using t by (simp add: on_message_def printLine_def or_js_def)
  have b: "get data P_args = JUndefined
        \<and> js_String (or_js (get data P_type) (JStr ''log'')) = Inr kind
        \<longrightarrow> on_message data h =
              Inr (h\<lparr>display := display h @
                     [\<lparr>className = ''line '' @ kind, textContent = []\<rparr>]\<rparr>)"
    using t by (auto simp: on_message_def printLine_def or_js_def joined_def)
  have f: "JSON_stringify v = Inr None \<longrightarrow> format v = Inr None"
    by (cases v) (auto simp: format_def)
  have c: "JSON_stringify v = Inr None \<and> format_all xs = Inr rs \<and> format_all ys = Inr ss
        \<longrightarrow> format v = Inr None
            \<and> joined (xs @ v # ys) =
                Inr (join '' '' (map (\<lambda>r. case r of None \<Rightarrow> [] | Some t \<Rightarrow> t) rs @ [] #
                       map (\<lambda>r. case r of None \<Rightarrow> [] | Some t \<Rightarrow> t) ss))"
  proof (intro impI)
    assume h: "JSON_stringify v = Inr None \<and> format_all xs = Inr rs \<and> format_all ys = Inr ss"
    then have fv: "format v = Inr None" using f by simp
    then have "format_all (v # ys) = Inr (None # ss)" using h by simp
    then have "format_all (xs @ v # ys) = Inr (rs @ None # ss)"
      using h format_all_append by blast
    then show "format v = Inr None
            \<and> joined (xs @ v # ys) =
                Inr (join '' '' (map (\<lambda>r. case r of None \<Rightarrow> [] | Some t \<Rightarrow> t) rs @ [] #
                       map (\<lambda>r. case r of None \<Rightarrow> [] | Some t \<Rightarrow> t) ss))"
      using fv by (simp add: joined_def)
  qed
  from a b c show ?thesis by simp
qed

text \<open>
  A message with nothing but the discriminator gives an empty \<open>log\<close> line; an undefined
  second argument leaves only the separating space after the first.
\<close>

theorem default_kind_and_args_witness:
  "on_message (JObj [(''__fromSandbox'', JBool True)]) init =
     Inr (init\<lparr>display := [\<lparr>className = ''line log'', textContent = []\<rparr>]\<rparr>)
   \<and> on_message (JObj [(''__fromSandbox'', JBool True), (''type'', JStr []),
                       (''args'', JArr [JStr ''a'', JUndefined])]) init =
     Inr (init\<lparr>display := [\<lparr>className = ''line log'', textContent = ''a ''\<rparr>]\<rparr>)
   \<and> joined ([JStr ''a''] @ JUndefined # []) = Inr ''a ''"
  using default_kind_and_args
          [of "JObj [(''__fromSandbox'', JBool True)]" "[]" "[]" init "''log''" JUndefined
              "[JStr ''a'']" "[Some ''a'']" "[]" "[]"]
        default_kind_and_args
          [of "JObj [(''__fromSandbox'', JBool True), (''type'', JStr []),
                     (''args'', JArr [JStr ''a'', JUndefined])]"
              "[JStr ''a'', JUndefined]" "''a ''" init "''log''" JUndefined "[]" "[]" "[]" "[]"]
  by (simp add: or_js_def init_def joined_def format_def)

text \<open>
  C10 as stated fails for a message with the discriminator, no \<open>type\<close>, and a plain
  object as \<open>args\<close>: the spread throws before \<open>printLine\<close> is called, so no line of
  kind \<open>log\<close> is rendered. No line is appended either when \<open>args\<close> is missing and the
  kind is an object that cannot be converted to a string, or when an undefined argument
  stands beside one that cannot be formatted.
\<close>

theorem kind_default_not_reached:
  "on_message (JObj [(''__fromSandbox'', JBool True), (''args'', JObj [])]) init = Inl TypeError
   \<and> rendered (JObj [(''__fromSandbox'', JBool True), (''args'', JObj [])]) = []
   \<and> rendered (JObj [(''__fromSandbox'', JBool True),
                     (''type'', JObj [(''toString'', JNum ''1'')])]) = []
   \<and> rendered (JObj [(''__fromSandbox'', JBool True),
                     (''args'', JArr [JUndefined,
                        JObj [(''toString'', JNum ''1''), (''n'', JBigInt 1)]])]) = []"
  by (simp add: on_message_def or_js_def rendered_def printLine_def joined_def format_def
        init_def)

section \<open>The dispatcher: createSandbox, run and the invariant of the host\<close>

lemma nth_update: "xs[c := y] ! i = (if i = c \<and> c < length xs then y else xs ! i)"
  by (cases "c < length xs") (auto simp: list_update_beyond)

lemma createSandbox_fields:
  "iframe (createSandbox h) = Some (length (ctxs h))"
  "length (ctxs (createSandbox h)) = Suc (length (ctxs h))"
  "ctxs (createSandbox h) ! length (ctxs h) =
     \<lparr>attached = True, listening = False, load_once = False, early = [], inbox = []\<rparr>"
  "display (createSandbox h) = display h"
  "queue (createSandbox h) = queue h"
  "timers (createSandbox h) = timers h"
  "editor (createSandbox h) = editor h"
  "uncaught (createSandbox h) = uncaught h"
  by (auto simp: createSandbox_def Let_def appendChild_def removeChild_def parentNode_def
        nth_append split: option.splits)

lemma createSandbox_old:
  "i < length (ctxs h) \<Longrightarrow>
     attached (ctxs (createSandbox h) ! i) = (attached (ctxs h ! i) \<and> iframe h \<noteq> Some i)"
  "i < length (ctxs h) \<Longrightarrow> listening (ctxs (createSandbox h) ! i) = listening (ctxs h ! i)"
  "i < length (ctxs h) \<Longrightarrow> load_once (ctxs (createSandbox h) ! i) = load_once (ctxs h ! i)"
  "i < length (ctxs h) \<Longrightarrow> inbox (ctxs (createSandbox h) ! i) = inbox (ctxs h ! i)"
  by (auto simp: createSandbox_def Let_def appendChild_def removeChild_def parentNode_def
        nth_append nth_update split: option.splits)

lemma run_fields:
  "display (run h) = []"
  "iframe (run h) = Some (length (ctxs h))"
  "length (ctxs (run h)) = Suc (length (ctxs h))"
  "ctxs (run h) ! length (ctxs h) =
     \<lparr>attached = True, listening = False, load_once = True, early = [], inbox = []\<rparr>"
  "timers (run h) = Suc (timers h)"
  "queue (run h) = queue h"
  "editor (run h) = editor h"
  "uncaught (run h) = uncaught h"
  by (simp_all add: run_def Let_def clearConsole_def createSandbox_fields contentWindow_def
        addLoadListener_def)

lemma run_old:
  "i < length (ctxs h) \<Longrightarrow>
     attached (ctxs (run h) ! i) = (attached (ctxs h ! i) \<and> iframe h \<noteq> Some i)"
  "i < length (ctxs h) \<Longrightarrow> listening (ctxs (run h) ! i) = listening (ctxs h ! i)"
  "i < length (ctxs h) \<Longrightarrow> inbox (ctxs (run h) ! i) = inbox (ctxs h ! i)"
  using createSandbox_old [of i "clearConsole h"]
  by (simp_all add: run_def Let_def createSandbox_fields contentWindow_def
        addLoadListener_def clearConsole_def nth_update)

lemma postMessage_shape:
  "iframe (postMessage c m h) = iframe h"
  "length (ctxs (postMessage c m h)) = length (ctxs h)"
  "attached (ctxs (postMessage c m h) ! i) = attached (ctxs h ! i)"
  "queue (postMessage c m h) = queue h"
  "display (postMessage c m h) = display h"
  "editor (postMessage c m h) = editor h"
  "timers (postMessage c m h) = timers h"
  "uncaught (postMessage c m h) = uncaught h"
  by (auto simp: postMessage_def nth_update)

lemma run_send_shape:
  "iframe (run_send h) = iframe h"
  "length (ctxs (run_send h)) = length (ctxs h)"
  "attached (ctxs (run_send h) ! i) = attached (ctxs h ! i)"
  "queue (run_send h) = queue h"
  "display (run_send h) = display h"
  "editor (run_send h) = editor h"
  "timers (run_send h) = timers h"
  "uncaught (run_send h) = uncaught h"
  by (auto simp: run_send_def postMessage_shape split: option.splits)

lemma fire_load_shape:
  "iframe (fire_load c h) = iframe h"
  "length (ctxs (fire_load c h)) = length (ctxs h)"
  "attached (ctxs (fire_load c h) ! i) = attached (ctxs h ! i)"
  "queue (fire_load c h) = queue h"
  "display (fire_load c h) = display h"
  "editor (fire_load c h) = editor h"
  "timers (fire_load c h) = timers h"
  "uncaught (fire_load c h) = uncaught h"
  by (auto simp: fire_load_def run_send_shape nth_update)

lemma boot_shape:
  "iframe (boot c k h) = iframe h"
  "length (ctxs (boot c k h)) = length (ctxs h)"
  "attached (ctxs (boot c k h) ! i) = attached (ctxs h ! i)"
  "queue (boot c k h) = queue h"
  "display (boot c k h) = display h"
  "editor (boot c k h) = editor h"
  "timers (boot c k h) = timers h"
  "uncaught (boot c k h) = uncaught h"
  by (auto simp: boot_def nth_update)

lemma emit_shape:
  "iframe (emit c ms h) = iframe h"
  "ctxs (emit c ms h) = ctxs h"
  "queue (emit c ms h) = queue h @ map (\<lambda>m. (Some c, m)) ms"
  "display (emit c ms h) = display h"
  "editor (emit c ms h) = editor h"
  "timers (emit c ms h) = timers h"
  "uncaught (emit c ms h) = uncaught h"
  by (simp_all add: emit_def)

lemma deliver_shape:
  "iframe (deliver eng c h) = iframe h"
  "length (ctxs (deliver eng c h)) = length (ctxs h)"
  "attached (ctxs (deliver eng c h) ! i) = attached (ctxs h ! i)"
  "display (deliver eng c h) = display h"
  "editor (deliver eng c h) = editor h"
  "timers (deliver eng c h) = timers h"
  "uncaught (deliver eng c h) = uncaught h"
  by (auto simp: deliver_def emit_shape live_def nth_update split: list.splits)

lemma host_dispatch_Nil: "queue h = [] \<Longrightarrow> host_dispatch h = h"
  by (simp add: host_dispatch_def)

lemma host_dispatch_step:
  "queue h = (src, d) # q \<Longrightarrow>
     host_dispatch h = h\<lparr>queue := q, uncaught := uncaught h @ [TypeError]\<rparr> \<and> rendered d = []
     \<or> host_dispatch h = h\<lparr>queue := q, display := display h @ rendered d\<rparr>"
  using on_message_cases [of d "h\<lparr>queue := q\<rparr>"]
  by (auto simp: host_dispatch_def)

lemma host_dispatch_all:
  "iframe (host_dispatch h) = iframe h
   \<and> ctxs (host_dispatch h) = ctxs h
   \<and> editor (host_dispatch h) = editor h
   \<and> timers (host_dispatch h) = timers h
   \<and> queue (host_dispatch h) = tl (queue h)
   \<and> display (host_dispatch h) =
       display h @ (case queue h of [] \<Rightarrow> [] | (src, d) # q \<Rightarrow> rendered d)"
proof (cases "queue h")
  case Nil
  then show ?thesis by (simp add: host_dispatch_Nil)
next
  case (Cons a q)
  obtain src d where a: "a = (src, d)" by (cases a)
  show ?thesis using Cons a host_dispatch_step [of h src d q] by auto
qed

lemmas host_dispatch_shape =
  host_dispatch_all [THEN conjunct1]
  host_dispatch_all [THEN conjunct2, THEN conjunct1]
  host_dispatch_all [THEN conjunct2, THEN conjunct2, THEN conjunct1]
  host_dispatch_all [THEN conjunct2, THEN conjunct2, THEN conjunct2, THEN conjunct1]
  host_dispatch_all [THEN conjunct2, THEN conjunct2, THEN conjunct2, THEN conjunct2, THEN conjunct1]
  host_dispatch_all [THEN conjunct2, THEN conjunct2, THEN conjunct2, THEN conjunct2, THEN conjunct2]

lemma step_shape:
  "e \<noteq> Run \<Longrightarrow> iframe (step eng e h) = iframe h"
  "e \<noteq> Run \<Longrightarrow> length (ctxs (step eng e h)) = length (ctxs h)"
  "e \<noteq> Run \<Longrightarrow> attached (ctxs (step eng e h) ! i) = attached (ctxs h ! i)"
  by (cases e; simp add: run_send_shape fire_load_shape deliver_shape emit_shape
        host_dispatch_shape boot_shape)+

lemma exec_append: "exec eng (es @ fs) h = exec eng fs (exec eng es h)"
  by (induction es arbitrary: h) simp_all

lemma step_queue_cases:
  assumes "e \<noteq> Run"
  shows "(\<exists>c ms. live h c \<and> queue (step eng e h) = queue h @ map (\<lambda>m. (Some c, m)) ms)
       \<or> queue (step eng e h) = queue h
       \<or> (\<exists>d. e = Extern d \<and> queue (step eng e h) = queue h @ [(None, d)])
       \<or> (e = HostMsg \<and> queue (step eng e h) = tl (queue h))"
proof (cases e)
  case (Deliver c)
  then show ?thesis
    by (auto simp: deliver_def emit_def split: list.splits)
qed (use assms in \<open>auto simp: run_send_shape fire_load_shape emit_shape host_dispatch_shape
        boot_shape\<close>)

lemma inv_init: "host_inv init"
  by (simp add: host_inv_def init_def)

lemma inv_run: "host_inv h \<Longrightarrow> host_inv (run h)"
  unfolding host_inv_def
  by (auto simp: run_fields run_old less_Suc_eq)

lemma inv_createSandbox: "host_inv h \<Longrightarrow> host_inv (createSandbox h)"
  unfolding host_inv_def
  by (auto simp: createSandbox_fields createSandbox_old less_Suc_eq)

lemma live_length: "live h c \<Longrightarrow> c < length (ctxs h)"
  by (simp add: live_def)

lemma inv_step: "host_inv h \<Longrightarrow> host_inv (step eng e h)"
proof (cases "e = Run")
  case True
  assume "host_inv h"
  then show ?thesis using True by (simp add: inv_run)
next
  case False
  assume w: "host_inv h"
  have old: "\<And>c d. (Some c, d) \<in> set (queue h) \<Longrightarrow> c < length (ctxs h)"
    using w unfolding host_inv_def by blast
  have q: "c < length (ctxs h)" if m: "(Some c, d) \<in> set (queue (step eng e h))" for c d
  proof -
    from step_queue_cases [OF False, of h eng]
    consider (emit) c' ms where "live h c'"
        "queue (step eng e h) = queue h @ map (\<lambda>m. (Some c', m)) ms"
      | (same) "queue (step eng e h) = queue h"
      | (ext) d' where "queue (step eng e h) = queue h @ [(None, d')]"
      | (pop) "queue (step eng e h) = tl (queue h)"
      by blast
    then show ?thesis
    proof cases
      case emit
      then show ?thesis using m old by (auto simp: live_length)
    next
      case same
      then show ?thesis using m old by simp
    next
      case ext
      then show ?thesis using m old by auto
    next
      case pop
      then show ?thesis using m old by (cases "queue h") auto
    qed
  qed
  show ?thesis
    unfolding host_inv_def using w q
    by (simp add: step_shape [OF False] host_inv_def)
qed

lemma inv_exec: "host_inv h \<Longrightarrow> host_inv (exec eng es h)"
  by (induction es arbitrary: h) (simp_all add: inv_step)

lemma filter_upt_eq: "c < n \<Longrightarrow> filter ((=) c) [0..<n] = [c]"
  by (induction n) (auto simp: less_Suc_eq)

lemma inv_attached_ids:
  assumes "host_inv h"
  shows "attached_ids h = (case iframe h of None \<Rightarrow> [] | Some c \<Rightarrow> [c])"
proof -
  have "attached_ids h = filter (\<lambda>i. iframe h = Some i) [0..<length (ctxs h)]"
    unfolding attached_ids_def using assms
    by (intro filter_cong) (auto simp: host_inv_def)
  then show ?thesis using assms
    by (auto simp: host_inv_def filter_upt_eq split: option.splits)
qed

lemma inv_funpow_createSandbox: "host_inv ((createSandbox ^^ n) init)"
  by (induction n) (simp_all add: inv_init inv_createSandbox)

lemma iframe_funpow_createSandbox:
  "iframe ((createSandbox ^^ n) init) = (if n = 0 then None else Some (n - 1))
   \<and> length (ctxs ((createSandbox ^^ n) init)) = n"
  by (induction n) (simp_all add: init_def createSandbox_fields)

text \<open>
  C9. After any sequence of events the attached iframes are exactly the one held by
  the variable \<open>iframe\<close>, or none when no run has happened yet, so at most one context
  is attached; the same holds after any number of calls of \<open>createSandbox\<close>, each of
  which leaves exactly the new iframe attached.
\<close>

theorem at_most_one_attached:
  "attached_ids (exec eng es init) =
     (case iframe (exec eng es init) of None \<Rightarrow> [] | Some c \<Rightarrow> [c])
   \<and> length (attached_ids (exec eng es init)) \<le> 1
   \<and> attached_ids ((createSandbox ^^ n) init) = (if n = 0 then [] else [n - 1])
   \<and> attached_ids (createSandbox (exec eng es init)) = [length (ctxs (exec eng es init))]"
proof -
  have w: "host_inv (exec eng es init)" by (simp add: inv_exec inv_init)
  have a: "attached_ids (exec eng es init) =
     (case iframe (exec eng es init) of None \<Rightarrow> [] | Some c \<Rightarrow> [c])"
    by (rule inv_attached_ids [OF w])
  then have b: "length (attached_ids (exec eng es init)) \<le> 1"
    by (simp split: option.splits)
  have c: "attached_ids ((createSandbox ^^ n) init) = (if n = 0 then [] else [n - 1])"
    using inv_attached_ids [OF inv_funpow_createSandbox [of n]]
    by (simp add: iframe_funpow_createSandbox)
  have d: "attached_ids (createSandbox (exec eng es init)) = [length (ctxs (exec eng es init))]"
    using inv_attached_ids [OF inv_createSandbox [OF w]]
    by (simp add: createSandbox_fields)
  from a b c d show ?thesis by simp
qed

text \<open>
  C7. \<open>run\<close> first clears the display, while the contexts, the variable \<open>iframe\<close>, the
  timers and the queue are still those of the previous run; creating the context, the
  timer and the load event add no line. So the display is empty after every \<open>run\<close>,
  whatever was displayed before.
\<close>

theorem run_clears_display:
  "display (clearConsole h) = []
   \<and> ctxs (clearConsole h) = ctxs h \<and> iframe (clearConsole h) = iframe h
   \<and> timers (clearConsole h) = timers h \<and> queue (clearConsole h) = queue h
   \<and> display (createSandbox (clearConsole h)) = []
   \<and> display (run h) = []
   \<and> display (exec eng (es @ [Run]) h) = []
   \<and> display (exec eng (es @ [Run, Timer, Load c]) h) = []"
  by (simp add: clearConsole_def createSandbox_fields run_fields exec_append
        run_send_shape fire_load_shape)

section \<open>Posting the request\<close>

lemma clone_RunRequest: "clone (RunRequest s) = RunRequest s"
  by (simp add: RunRequest_def)





section \<open>Supersession: messages of a replaced context\<close>

lemma stale_step:
  assumes w: "host_inv h" and e: "e \<noteq> Run" "\<not> is_Extern e"
  shows "\<exists>k. stale (step eng e h) = drop k (stale h)"
proof -
  have i: "iframe (step eng e h) = iframe h" by (simp add: step_shape [OF e(1)])
  from step_queue_cases [OF e(1), of h eng]
  consider (emit) c ms where "live h c"
      "queue (step eng e h) = queue h @ map (\<lambda>m. (Some c, m)) ms"
    | (same) "queue (step eng e h) = queue h"
    | (ext) d where "e = Extern d"
    | (pop) "queue (step eng e h) = tl (queue h)"
    by blast
  then show ?thesis
  proof cases
    case emit
    have "iframe h = Some c" using w emit(1) by (auto simp: host_inv_def live_def)
    then have "stale (step eng e h) = stale h"
      by (simp add: stale_def i emit(2))
    then show ?thesis by (intro exI [of _ 0]) simp
  next
    case same
    then have "stale (step eng e h) = stale h" by (simp add: stale_def i)
    then show ?thesis by (intro exI [of _ 0]) simp
  next
    case ext
    then show ?thesis using e(2) by simp
  next
    case pop
    show ?thesis
    proof (cases "queue h")
      case Nil
      then have "stale (step eng e h) = stale h" using pop by (simp add: stale_def i)
      then show ?thesis by (intro exI [of _ 0]) simp
    next
      case (Cons a q)
      then have "stale (step eng e h) = drop (if fst a \<noteq> iframe h then 1 else 0) (stale h)"
        using pop by (cases a) (simp add: stale_def i)
      then show ?thesis by blast
    qed
  qed
qed

lemma stale_exec:
  "host_inv h \<Longrightarrow> Run \<notin> set es \<Longrightarrow> \<forall>e \<in> set es. \<not> is_Extern e \<Longrightarrow>
     \<exists>k. stale (exec eng es h) = drop k (stale h)"
proof (induction es arbitrary: h)
  case Nil
  show ?case by (intro exI [of _ 0]) simp
next
  case (Cons e es)
  from Cons.prems have e: "e \<noteq> Run" "\<not> is_Extern e" by auto
  obtain k where k: "stale (step eng e h) = drop k (stale h)"
    using stale_step [OF Cons.prems(1) e] by blast
  have "host_inv (step eng e h)" using Cons.prems(1) by (rule inv_step)
  then obtain j where "stale (exec eng es (step eng e h)) = drop j (stale (step eng e h))"
    using Cons.IH [of "step eng e h"] Cons.prems by auto
  then have "stale (exec eng (e # es) h) = drop (j + k) (stale h)"
    by (simp add: k)
  then show ?case by blast
qed

lemma stale_run: "host_inv h \<Longrightarrow> stale (run h) = queue h"
proof -
  assume w: "host_inv h"
  have "\<And>s d. (s, d) \<in> set (queue h) \<Longrightarrow> s \<noteq> Some (length (ctxs h))"
    using w unfolding host_inv_def by fastforce
  then show ?thesis
    by (auto simp: stale_def run_fields intro!: filter_True)
qed

text \<open>
  C1 (as amended). \<open>run\<close> empties the display, and from then on the replaced context
  posts nothing: until the next run, and as long as no other window posts to the host,
  the messages in the host's queue that do not come from the current context are a
  remainder of the messages that were already queued when the run started. When none
  was queued, every message dispatched after the run comes from the current context.
  The listener does not look at the source of a message, so a message of the replaced
  context that was still queued is rendered after the clear.
\<close>

theorem stale_messages_only_shrink:
  "Run \<notin> set es \<Longrightarrow> \<forall>e \<in> set es. \<not> is_Extern e \<Longrightarrow>
     display (run (exec eng es0 init)) = []
     \<and> stale (run (exec eng es0 init)) = queue (exec eng es0 init)
     \<and> (\<exists>k. stale (exec eng es (run (exec eng es0 init))) = drop k (queue (exec eng es0 init)))
     \<and> (queue (exec eng es0 init) = [] \<longrightarrow>
          (\<forall>(src, d) \<in> set (queue (exec eng es (run (exec eng es0 init)))).
             src = iframe (exec eng es (run (exec eng es0 init)))))"
proof -
  assume es: "Run \<notin> set es" "\<forall>e \<in> set es. \<not> is_Extern e"
  let ?h = "exec eng es0 init"
  have w: "host_inv ?h" by (simp add: inv_exec inv_init)
  have r: "stale (run ?h) = queue ?h" by (rule stale_run [OF w])
  obtain k where k: "stale (exec eng es (run ?h)) = drop k (queue ?h)"
    using stale_exec [OF inv_run [OF w] es, of eng] r by auto
  have "queue ?h = [] \<longrightarrow>
          (\<forall>(src, d) \<in> set (queue (exec eng es (run ?h))). src = iframe (exec eng es (run ?h)))"
  proof
    assume "queue ?h = []"
    then have "stale (exec eng es (run ?h)) = []" using k by simp
    then show "\<forall>(src, d) \<in> set (queue (exec eng es (run ?h))). src = iframe (exec eng es (run ?h))"
      by (auto simp: stale_def filter_empty_conv)
  qed
  then show ?thesis using r k by (simp add: run_fields) blast
qed

text \<open>
  C1 as stated fails: context 0 logs \<open>old\<close>, a second run starts while that message is
  still in the host's queue, and the message is then rendered into the display that the
  second run has cleared, although the current context is context 1.
\<close>

theorem superseded_output_displayed:
  "iframe (exec demo_engine
       [Edit script_log_old, Run, Boot 0 False, Timer, Load 0, Deliver 0, Run] init) = Some 1
   \<and> display (exec demo_engine
       [Edit script_log_old, Run, Boot 0 False, Timer, Load 0, Deliver 0, Run] init) = []
   \<and> queue (exec demo_engine
       [Edit script_log_old, Run, Boot 0 False, Timer, Load 0, Deliver 0, Run] init) =
       [(Some 0, Output ''log'' (JArr [JStr ''old'']))]
   \<and> display (exec demo_engine
       [Edit script_log_old, Run, Boot 0 False, Timer, Load 0, Deliver 0, Run, HostMsg] init) =
       [\<lparr>className = ''line log'', textContent = ''old''\<rparr>]"
  by (simp add: init_def run_def Let_def clearConsole_def createSandbox_def appendChild_def
      removeChild_def parentNode_def
      contentWindow_def addLoadListener_def boot_def fire_load_def run_send_def postMessage_def
      deliver_def live_def emit_def sandbox_on_message_def RunRequest_def demo_engine_def
      demo_compile_def script_log_old_def script_throw_custom_def script_throw_nostack_def
      script_log_reject_def script_log_uncoercible_def sandbox_String_def reported_def
      wrap_def send_def Output_def host_dispatch_def on_message_def or_js_def printLine_def
      joined_def format_def)

text \<open>
  A message of context 0 is queued when the second run starts; dispatching it leaves no
  message of a replaced context.
\<close>

theorem stale_messages_only_shrink_witness:
  "Run \<notin> set [HostMsg] \<and> \<not> is_Extern HostMsg
   \<and> stale (run (exec demo_engine [Edit script_log_old, Run, Boot 0 False, Timer, Load 0, Deliver 0] init)) =
       [(Some 0, Output ''log'' (JArr [JStr ''old'']))]
   \<and> stale (exec demo_engine [HostMsg]
         (run (exec demo_engine [Edit script_log_old, Run, Boot 0 False, Timer, Load 0, Deliver 0] init))) = []
   \<and> queue (exec demo_engine [Edit script_log_old, Run, Boot 0 False, Timer, Load 0, Deliver 0] init) =
       [(Some 0, Output ''log'' (JArr [JStr ''old'']))]"
proof -
  have q: "queue (exec demo_engine [Edit script_log_old, Run, Boot 0 False, Timer, Load 0, Deliver 0] init) =
       [(Some 0, Output ''log'' (JArr [JStr ''old'']))]"
    by (simp add: init_def run_def Let_def clearConsole_def createSandbox_def appendChild_def
      contentWindow_def addLoadListener_def boot_def fire_load_def run_send_def postMessage_def
      deliver_def live_def emit_def sandbox_on_message_def RunRequest_def demo_engine_def
      demo_compile_def script_log_old_def script_throw_custom_def script_throw_nostack_def
      script_log_reject_def script_log_uncoercible_def sandbox_String_def reported_def
      wrap_def send_def Output_def)
  have s: "stale (exec demo_engine [HostMsg]
         (run (exec demo_engine [Edit script_log_old, Run, Boot 0 False, Timer, Load 0, Deliver 0] init))) = []"
    by (simp add: stale_def init_def run_def Let_def clearConsole_def createSandbox_def
      appendChild_def removeChild_def parentNode_def
      contentWindow_def addLoadListener_def boot_def fire_load_def run_send_def postMessage_def
      deliver_def live_def emit_def sandbox_on_message_def RunRequest_def demo_engine_def
      demo_compile_def script_log_old_def script_throw_custom_def script_throw_nostack_def
      script_log_reject_def script_log_uncoercible_def sandbox_String_def reported_def
      wrap_def send_def Output_def host_dispatch_def on_message_def or_js_def printLine_def
      joined_def format_def)
  show ?thesis
    using stale_messages_only_shrink
            [of "[HostMsg]" demo_engine "[Edit script_log_old, Run, Boot 0 False, Timer, Load 0, Deliver 0]"] q s
    by simp
qed

section \<open>Synchronous throws in the sandbox script\<close>





lemma catch_block_throws:
  "js_String (stack_or_err err) = Inl e \<Longrightarrow>
     catch_block eng err out = (Some (type_error eng), out)"
  by (simp add: catch_block_def sandbox_String_def)








section \<open>Asynchronous rejections\<close>








lemma pending_host_dispatch: "pending_lines (host_dispatch h) = pending_lines h"
  by (cases "queue h") (auto simp: pending_lines_def host_dispatch_shape)

lemma pending_same:
  "queue h' = queue h \<Longrightarrow> display h' = display h \<Longrightarrow> pending_lines h' = pending_lines h"
  by (simp add: pending_lines_def)



lemma pending_unchanged:
  "pending_lines (run_send h) = pending_lines h"
  "pending_lines (fire_load c h) = pending_lines h"
  "pending_lines (h\<lparr>editor := s\<rparr>) = pending_lines h"
  "pending_lines (h\<lparr>timers := t\<rparr>) = pending_lines h"
  "pending_lines (h\<lparr>queue := queue h @ [(None, d)]\<rparr>) = pending_lines h @ rendered d"
  "pending_lines (boot c k h) = pending_lines h"
  by (simp_all add: pending_lines_def run_send_shape fire_load_shape boot_shape)









section \<open>The empty script\<close>

lemma msgs_postMessage:
  "set (early (ctxs (postMessage c m h) ! i)) \<union> set (inbox (ctxs (postMessage c m h) ! i))
     \<subseteq> insert (clone m) (set (early (ctxs h ! i)) \<union> set (inbox (ctxs h ! i)))"
  by (auto simp: postMessage_def nth_update)

lemma msgs_run_send:
  "set (early (ctxs (run_send h) ! i)) \<union> set (inbox (ctxs (run_send h) ! i))
     \<subseteq> insert (RunRequest (editor h)) (set (early (ctxs h ! i)) \<union> set (inbox (ctxs h ! i)))"
  using msgs_postMessage [of _ "RunRequest (editor h)" h i]
  by (auto simp: run_send_def clone_RunRequest split: option.splits)

lemma msgs_fire_load:
  "set (early (ctxs (fire_load c h) ! i)) \<union> set (inbox (ctxs (fire_load c h) ! i))
     \<subseteq> insert (RunRequest (editor h)) (set (early (ctxs h ! i)) \<union> set (inbox (ctxs h ! i)))"
proof -
  have "set (early (ctxs (run_send h') ! i)) \<union> set (inbox (ctxs (run_send h') ! i))
     \<subseteq> insert (RunRequest (editor h)) (set (early (ctxs h ! i)) \<union> set (inbox (ctxs h ! i)))"
    if "editor h' = editor h" "inbox (ctxs h' ! i) = inbox (ctxs h ! i)"
       "early (ctxs h' ! i) = early (ctxs h ! i)" for h'
    using msgs_run_send [of h' i] that by simp
  then show ?thesis
    by (auto simp: fire_load_def Let_def live_def nth_update)
qed

lemma msgs_boot:
  "set (early (ctxs (boot c k h) ! i)) \<union> set (inbox (ctxs (boot c k h) ! i))
     \<subseteq> set (early (ctxs h ! i)) \<union> set (inbox (ctxs h ! i))"
  by (auto simp: boot_def nth_update)

lemma msgs_deliver:
  "set (early (ctxs (deliver eng c h) ! i)) \<union> set (inbox (ctxs (deliver eng c h) ! i))
     \<subseteq> set (early (ctxs h ! i)) \<union> set (inbox (ctxs h ! i))"
proof (cases "live h c")
  case False
  then show ?thesis by (simp add: deliver_def)
next
  case True
  then have c: "c < length (ctxs h)" by (simp add: live_def)
  show ?thesis
  proof (cases "inbox (ctxs h ! c)")
    case Nil
    then show ?thesis using True by (simp add: deliver_def)
  next
    case (Cons m ms)
    then show ?thesis
      using True c by (cases "i = c") (auto simp: deliver_def emit_def nth_update)
  qed
qed

lemma set_tl_subset: "set (tl xs) \<subseteq> set xs"
  by (cases xs) auto

lemma empty_request_silent:
  "compile eng [] = Inr Return \<Longrightarrow> sandbox_on_message eng (RunRequest []) out = (None, out)"
  by (simp add: sandbox_on_message_def RunRequest_def sandbox_String_def)

lemma internal_cases:
  "internal e \<Longrightarrow>
     e = Timer \<or> (\<exists>c k. e = Boot c k) \<or> (\<exists>c. e = Load c) \<or> (\<exists>c. e = Deliver c) \<or> e = HostMsg"
  by (cases e) simp_all

lemma silent_deliver:
  assumes eng: "compile eng [] = Inr Return" and s: "silent h"
  shows "queue (deliver eng c h) = queue h" "display (deliver eng c h) = display h"
proof -
  show "display (deliver eng c h) = display h" by (simp add: deliver_shape)
  show "queue (deliver eng c h) = queue h"
  proof (cases "live h c")
    case False
    then show ?thesis by (simp add: deliver_def)
  next
    case True
    then have "iframe h = Some c" using s by (auto simp: silent_def host_inv_def live_def)
    then have "\<forall>m \<in> set (inbox (ctxs h ! c)). m = RunRequest []"
      using s by (simp add: silent_def)
    then show ?thesis
      using True by (auto simp: deliver_def emit_def empty_request_silent [OF eng]
          reported_def split: list.splits)
  qed
qed

lemma silent_step_queue:
  assumes eng: "compile eng [] = Inr Return" and s: "silent h" and e: "internal e"
  shows "queue (step eng e h) = queue h \<or> queue (step eng e h) = tl (queue h)"
  using internal_cases [OF e] silent_deliver [OF eng s]
  by (auto simp: run_send_shape fire_load_shape host_dispatch_shape boot_shape)

lemma silent_step_inbox:
  assumes e: "internal e"
  shows "set (early (ctxs (step eng e h) ! i)) \<union> set (inbox (ctxs (step eng e h) ! i)) \<subseteq>
     insert (RunRequest (editor h)) (set (early (ctxs h ! i)) \<union> set (inbox (ctxs h ! i)))"
proof -
  have t: "set (early (ctxs (run_send (h\<lparr>timers := t\<rparr>)) ! i))
       \<union> set (inbox (ctxs (run_send (h\<lparr>timers := t\<rparr>)) ! i)) \<subseteq>
     insert (RunRequest (editor h)) (set (early (ctxs h ! i)) \<union> set (inbox (ctxs h ! i)))" for t
    using msgs_run_send [of "h\<lparr>timers := t\<rparr>" i] by simp
  from internal_cases [OF e] consider
    (timer) "e = Timer" | (boot) c k where "e = Boot c k" | (load) c where "e = Load c"
    | (deliver) c where "e = Deliver c" | (host) "e = HostMsg"
    by blast
  then show ?thesis
  proof cases
    case timer
    then show ?thesis using t [of "timers h - 1"] by auto
  next
    case boot
    then show ?thesis using msgs_boot [of c k h i] by auto
  next
    case load
    then show ?thesis using msgs_fire_load [of c h i] by simp
  next
    case deliver
    then show ?thesis using msgs_deliver [of eng c h i] by auto
  next
    case host
    then show ?thesis by (auto simp: host_dispatch_shape)
  qed
qed

lemma internal_editor: "internal e \<Longrightarrow> editor (step eng e h) = editor h"
  by (cases e)
     (simp_all add: run_send_shape fire_load_shape deliver_shape host_dispatch_shape boot_shape)

lemma internal_not_Run: "internal e \<Longrightarrow> e \<noteq> Run \<and> \<not> is_Extern e"
  by (cases e) simp_all

lemma silent_step:
  assumes eng: "compile eng [] = Inr Return" and s: "silent h" and e: "internal e"
  shows "silent (step eng e h)"
proof -
  have nr: "e \<noteq> Run" using e by (simp add: internal_not_Run)
  have w: "host_inv (step eng e h)" using s by (simp add: silent_def inv_step)
  have ed: "editor (step eng e h) = []" using s e by (simp add: internal_editor silent_def)
  have q: "set (queue (step eng e h)) \<subseteq> set (queue h)"
    using silent_step_queue [OF eng s e] set_tl_subset [of "queue h"] by auto
  have i: "set (early (ctxs (step eng e h) ! c)) \<union> set (inbox (ctxs (step eng e h) ! c))
      \<subseteq> insert (RunRequest []) (set (early (ctxs h ! c)) \<union> set (inbox (ctxs h ! c)))"
    for c
    using silent_step_inbox [OF e, of eng h c] s by (simp add: silent_def)
  have ib: "\<forall>m \<in> set (early (ctxs (step eng e h) ! c)) \<union> set (inbox (ctxs (step eng e h) ! c)).
      m = RunRequest []"
    if "iframe h = Some c" for c
    using i [of c] s that unfolding silent_def by blast
  have qb: "(Some c, d) \<notin> set (queue (step eng e h))" if "iframe h = Some c" for c d
    using q s that unfolding silent_def by blast
  show ?thesis
    unfolding silent_def
    using w ed ib qb by (simp add: step_shape [OF nr])
qed

lemma silent_step_pending:
  assumes eng: "compile eng [] = Inr Return" and s: "silent h" and e: "internal e"
  shows "pending_lines (step eng e h) = pending_lines h"
  using internal_cases [OF e] silent_deliver [OF eng s]
  by (auto simp: pending_unchanged pending_host_dispatch intro: pending_same)

lemma foreign_step:
  assumes w: "host_inv h" and i: "iframe h = Some cur"
    and e: "script_ctx e = Some c" and c: "c \<noteq> cur"
  shows "step eng e h = h"
proof -
  have "\<not> live h c" using w i c by (auto simp: host_inv_def live_def)
  then show ?thesis using e by (cases e) simp_all
qed

lemma follows_empty_cases:
  "follows_empty cur e \<Longrightarrow> internal e \<or> (\<exists>c. script_ctx e = Some c \<and> c \<noteq> cur)"
  by (auto simp: follows_empty_def split: option.splits)

lemma follows_empty_not_Run: "follows_empty cur e \<Longrightarrow> e \<noteq> Run \<and> \<not> is_Extern e"
  by (cases e) (simp_all add: follows_empty_def)

lemma silent_follow:
  assumes eng: "compile eng [] = Inr Return" and s: "silent h" and i: "iframe h = Some cur"
    and e: "follows_empty cur e"
  shows "silent (step eng e h) \<and> pending_lines (step eng e h) = pending_lines h
         \<and> iframe (step eng e h) = Some cur"
proof -
  have nr: "e \<noteq> Run" using e by (simp add: follows_empty_not_Run)
  have w: "host_inv h" using s by (simp add: silent_def)
  from follows_empty_cases [OF e] show ?thesis
  proof
    assume "internal e"
    then show ?thesis
      using silent_step [OF eng s] silent_step_pending [OF eng s] i
      by (simp add: step_shape [OF nr])
  next
    assume "\<exists>c. script_ctx e = Some c \<and> c \<noteq> cur"
    then obtain c where "script_ctx e = Some c" "c \<noteq> cur" by blast
    then have "step eng e h = h" using foreign_step [OF w i] by blast
    then show ?thesis using s i by simp
  qed
qed

lemma silent_exec:
  "compile eng [] = Inr Return \<Longrightarrow> silent h \<Longrightarrow> iframe h = Some cur \<Longrightarrow>
   \<forall>e \<in> set es. follows_empty cur e \<Longrightarrow>
     silent (exec eng es h) \<and> pending_lines (exec eng es h) = pending_lines h
     \<and> iframe (exec eng es h) = Some cur"
proof (induction es arbitrary: h)
  case Nil
  then show ?case by simp
next
  case (Cons e es)
  then have "silent (step eng e h) \<and> pending_lines (step eng e h) = pending_lines h
         \<and> iframe (step eng e h) = Some cur"
    by (simp add: silent_follow)
  then show ?case using Cons by simp
qed

lemma silent_run: "host_inv h \<Longrightarrow> silent (run (h\<lparr>editor := []\<rparr>))"
proof -
  assume w: "host_inv h"
  have "host_inv (step eng (Edit []) h)" for eng using w by (rule inv_step)
  then have w': "host_inv (h\<lparr>editor := []\<rparr>)" by simp
  have "(Some (length (ctxs h)), d) \<notin> set (queue h)" for d
    using w unfolding host_inv_def by fastforce
  then show ?thesis
    unfolding silent_def
    using inv_run [OF w'] run_fields(4) [of "h\<lparr>editor := []\<rparr>"]
    by (simp add: run_fields)
qed

text \<open>
  C8 (as amended). Provided the engine compiles the empty text to a script that returns
  at once: a request to run the empty script posts no message. After a run with an empty
  editor, whatever happened before it, and whichever timers, script starts, load events,
  message dispatches and events of the scripts of earlier contexts follow (no edit, no
  further run and no message of another window), the host's queue holds no message of
  the new context, and the lines displayed or still to be displayed are those of the
  messages that were queued when the run started. When none was queued, the display
  and the queue stay empty.
\<close>

theorem empty_code_no_output:
  "compile eng [] = Inr Return \<Longrightarrow>
   \<forall>e \<in> set es. follows_empty (length (ctxs (exec eng es0 init))) e \<Longrightarrow>
     sandbox_on_message eng (RunRequest []) [] = (None, [])
     \<and> filter (\<lambda>(src, d). src = iframe (exec eng (es0 @ Edit [] # Run # es) init))
          (queue (exec eng (es0 @ Edit [] # Run # es) init)) = []
     \<and> pending_lines (exec eng (es0 @ Edit [] # Run # es) init) =
          concat (map (\<lambda>(src, d). rendered d) (queue (exec eng es0 init)))
     \<and> (queue (exec eng es0 init) = [] \<longrightarrow>
          display (exec eng (es0 @ Edit [] # Run # es) init) = []
          \<and> queue (exec eng (es0 @ Edit [] # Run # es) init) = [])"
proof -
  assume eng: "compile eng [] = Inr Return"
    and es: "\<forall>e \<in> set es. follows_empty (length (ctxs (exec eng es0 init))) e"
  let ?h0 = "exec eng es0 init"
  let ?h1 = "run (?h0\<lparr>editor := []\<rparr>)"
  let ?hN = "exec eng es ?h1"
  have hN: "exec eng (es0 @ Edit [] # Run # es) init = ?hN" by (simp add: exec_append)
  have w0: "host_inv ?h0" by (simp add: inv_exec inv_init)
  have s1: "silent ?h1" by (rule silent_run [OF w0])
  have i1: "iframe ?h1 = Some (length (ctxs ?h0))" by (simp add: run_fields)
  have sN: "silent ?hN" and pN: "pending_lines ?hN = pending_lines ?h1"
    and iN: "iframe ?hN = Some (length (ctxs ?h0))"
    using silent_exec [OF eng s1 i1 es] by simp_all
  have p1: "pending_lines ?h1 = concat (map (\<lambda>(src, d). rendered d) (queue ?h0))"
    by (simp add: pending_lines_def run_fields)
  have a: "filter (\<lambda>(src, d). src = iframe ?hN) (queue ?hN) = []"
    using sN iN by (auto simp: silent_def filter_empty_conv)
  have b: "queue ?h0 = [] \<longrightarrow> display ?hN = [] \<and> queue ?hN = []"
  proof
    assume q0: "queue ?h0 = []"
    then have "pending_lines ?hN = []" using pN p1 by simp
    then have d: "display ?hN = []" by (simp add: pending_lines_def)
    have w0': "host_inv (?h0\<lparr>editor := []\<rparr>)"
      using inv_step [OF w0, of eng "Edit []"] by simp
    have "Run \<notin> set es" "\<forall>e \<in> set es. \<not> is_Extern e"
      using es follows_empty_not_Run by blast+
    from stale_exec [OF inv_run [OF w0'] this, of eng]
    have "stale ?hN = []" using stale_run [OF w0'] q0 by auto
    then have "queue ?hN = []"
      using a by (cases "queue ?hN") (auto simp: stale_def split: if_splits)
    then show "display ?hN = [] \<and> queue ?hN = []" using d by simp
  qed
  show ?thesis
    using a b pN p1 empty_request_silent [OF eng, of "[]"] by (simp only: hN)
qed

text \<open>
  A first run of the empty script, followed by the start of its script, its timer, its
  load event and the dispatches.
\<close>

theorem empty_code_no_output_witness:
  "compile demo_engine [] = Inr Return
   \<and> internal (Boot 0 False) \<and> internal Timer \<and> internal (Load 0)
   \<and> internal (Deliver 0) \<and> internal HostMsg
   \<and> display (exec demo_engine
        ([] @ Edit [] # Run # [Boot 0 False, Timer, Load 0, Deliver 0, Deliver 0, HostMsg]) init)
       = []
   \<and> queue (exec demo_engine
        ([] @ Edit [] # Run # [Boot 0 False, Timer, Load 0, Deliver 0, Deliver 0, HostMsg]) init)
       = []"
  using empty_code_no_output
    [of demo_engine "[Boot 0 False, Timer, Load 0, Deliver 0, Deliver 0, HostMsg]" "[]"]
  by (simp add: demo_engine_def demo_compile_def script_log_old_def script_throw_custom_def
        script_throw_nostack_def script_log_reject_def script_log_uncoercible_def init_def
        follows_empty_def)

text \<open>
  C8 as stated fails. A first run logs \<open>old\<close>; the editor is emptied and a second run
  starts while that message is still in the host's queue: after the run of the empty
  script the display shows the line \<open>old\<close>. And the request carries the text of the
  editor at the time it is posted: a run started with an empty editor executes the text
  typed before its timer fires.
\<close>

theorem empty_run_display_not_empty:
  "display (exec demo_engine
      [Edit script_log_old, Run, Boot 0 False, Timer, Deliver 0, Edit [], Run, Boot 1 False,
       Timer, Deliver 1, HostMsg] init) =
     [\<lparr>className = ''line log'', textContent = ''old''\<rparr>]
   \<and> display (exec demo_engine
      [Edit [], Run, Edit script_log_old, Boot 0 False, Timer, Deliver 0, HostMsg] init) =
     [\<lparr>className = ''line log'', textContent = ''old''\<rparr>]"
  by (simp add: init_def run_def Let_def clearConsole_def createSandbox_def appendChild_def
      removeChild_def parentNode_def
      contentWindow_def addLoadListener_def boot_def fire_load_def run_send_def postMessage_def
      deliver_def live_def emit_def sandbox_on_message_def RunRequest_def demo_engine_def
      demo_compile_def script_log_old_def script_throw_custom_def script_throw_nostack_def
      script_log_reject_def script_log_uncoercible_def sandbox_String_def reported_def
      wrap_def send_def Output_def host_dispatch_def on_message_def or_js_def printLine_def
      joined_def format_def)

end
